theory Spec2Isabelle
  imports Main
begin

section \<open>JavaScript values\<close>

text \<open>
  An object is the list of its own enumerable properties, in enumeration order, and its
  prototype. An object made by \<open>JSON.parse\<close> or by an object literal has
  \<open>Object.prototype\<close> as its prototype, and its keys are distinct. The loader does
  not compute with numbers; the model carries the integers of the configuration schema.
\<close>

datatype 'a proto = ObjectPrototype | NullPrototype | ProtoOf 'a

datatype json =
    JNull
  | JBool bool
  | JNumber int
  | JString string
  | JArray "json list"
  | JObject "(string \<times> json) list" "json proto"

text \<open>A thrown \<open>Error\<close>: its \<open>name\<close>, its \<open>message\<close>, and its \<open>code\<close> when it has one.\<close>

record js_error =
  err_name :: string
  err_message :: string
  err_code :: "string option"

text \<open>\<open>String(err)\<close>, that is \<open>Error.prototype.toString\<close>.\<close>

definition String_of_error :: "js_error \<Rightarrow> string" where
  "String_of_error err =
     (if err_name err = [] then err_message err
      else if err_message err = [] then err_name err
      else err_name err @ '': '' @ err_message err)"

section \<open>Variable substitution\<close>

text \<open>
  The regular expression \<open>/\{env:([^}]+)\}/\<close> tried at the head of a string: the
  literal \<open>{env:\<close>, then as many characters other than \<open>}\<close> as there are (at least
  one), then \<open>}\<close>. The result is the captured name and the text after the match.
\<close>

definition match_token :: "string \<Rightarrow> (string \<times> string) option" where
  "match_token s =
     (if take 5 s = ''{env:'' then
        (let t = drop 5 s;
             nm = takeWhile (\<lambda>c. c \<noteq> CHR ''}'') t;
             rest = dropWhile (\<lambda>c. c \<noteq> CHR ''}'') t
         in if nm \<noteq> [] \<and> rest \<noteq> [] then Some (nm, tl rest) else None)
      else None)"

lemma match_token_shorter:
  assumes "match_token s = Some (nm, r)"
  shows "length r < length s"
proof -
  let ?t = "drop 5 s"
  from assms have r: "r = tl (dropWhile (\<lambda>c. c \<noteq> CHR ''}'') ?t)"
    and five: "take 5 s = ''{env:''"
    by (auto simp: match_token_def Let_def split: if_splits)
  have "length (dropWhile (\<lambda>c. c \<noteq> CHR ''}'') ?t) \<le> length ?t"
    by (rule length_dropWhile_le)
  then have "length r \<le> length s - 5"
    unfolding r by simp
  moreover from five have "length (take 5 s) = 5"
    by simp
  then have "5 \<le> length s"
    by simp
  ultimately show ?thesis by simp
qed

text \<open>
  \<open>s.replace(/\{env:([^}]+)\}/g, (_, name) => process.env[name] ?? "")\<close>: the string is
  scanned from the left; where the expression matches, the match is replaced by the
  callback's result and the scan goes on after the match; elsewhere the character is kept.
\<close>

text \<open>
  The object \<open>process.env\<close>: its own properties are the variables that are set, and it
  inherits from \<open>Object.prototype\<close>. The functions of \<open>Object.prototype\<close> are
  listed by name; the text that \<open>String\<close> gives for a built-in function is the
  engine's, and is taken from the runtime.
\<close>

record environment =
  variables :: "string \<Rightarrow> string option"
  native_text :: "string \<Rightarrow> string"

definition Object_prototype_functions :: "string list" where
  "Object_prototype_functions =
     [''constructor'', ''hasOwnProperty'', ''isPrototypeOf'', ''propertyIsEnumerable'',
      ''toLocaleString'', ''toString'', ''valueOf'', ''__defineGetter__'',
      ''__defineSetter__'', ''__lookupGetter__'', ''__lookupSetter__'']"

text \<open>
  The callback's \<open>process.env[name] ?? ""\<close>, as the text that \<open>replace\<close> puts in
  place of the match. The property read finds a variable that is set; for a name that is
  not set it finds what \<open>Object.prototype\<close> has under that name, which is not nullish:
  \<open>__proto__\<close> reads \<open>Object.prototype\<close> itself, whose string is
  \<open>[object Object]\<close>, and the other names read functions. Only a name found nowhere
  reads \<open>undefined\<close> and gives the empty string.
\<close>

definition env_value :: "environment \<Rightarrow> string \<Rightarrow> string" where
  "env_value env nm =
     (case variables env nm of
        Some v \<Rightarrow> v
      | None \<Rightarrow>
          if nm = ''__proto__'' then ''[object Object]''
          else if nm \<in> set Object_prototype_functions then native_text env nm
          else [])"

function replace_env :: "environment \<Rightarrow> string \<Rightarrow> string" where
  "replace_env env [] = []"
| "replace_env env (c # cs) =
     (case match_token (c # cs) of
        Some (nm, rest) \<Rightarrow> env_value env nm @ replace_env env rest
      | None \<Rightarrow> c # replace_env env cs)"
  by pat_completeness auto
termination
  by (relation "measure (\<lambda>(env, s). length s)") (auto dest: match_token_shorter)

text \<open>
  \<open>result[k] = v\<close> on an object whose prototype chain ends in \<open>Object.prototype\<close>:
  the key \<open>__proto__\<close> is an accessor of \<open>Object.prototype\<close>, so assigning it
  creates no own property; it replaces the prototype when \<open>v\<close> is an object or
  \<open>null\<close> and does nothing otherwise. Any other key is updated in place or appended.
\<close>

fun update_prop :: "string \<Rightarrow> json \<Rightarrow> (string \<times> json) list \<Rightarrow> (string \<times> json) list" where
  "update_prop k v [] = [(k, v)]"
| "update_prop k v ((k', v') # kvs) =
     (if k' = k then (k, v) # kvs else (k', v') # update_prop k v kvs)"

fun assign_prop :: "(string \<times> json) \<Rightarrow> (string \<times> json) list \<times> json proto
    \<Rightarrow> (string \<times> json) list \<times> json proto" where
  "assign_prop (k, v) (kvs, p) =
     (if k = ''__proto__'' then
        (case v of
           JObject _ _ \<Rightarrow> (kvs, ProtoOf v)
         | JArray _ \<Rightarrow> (kvs, ProtoOf v)
         | JNull \<Rightarrow> (kvs, NullPrototype)
         | _ \<Rightarrow> (kvs, p))
      else (update_prop k v kvs, p))"

text \<open>
  \<open>interpolate\<close>: a string is substituted, an array is mapped, an object is rebuilt from
  its own entries into a fresh \<open>{}\<close>, anything else is returned as it is.
\<close>

fun interpolate :: "environment \<Rightarrow> json \<Rightarrow> json" where
  "interpolate env (JString s) = JString (replace_env env s)"
| "interpolate env (JArray vs) = JArray (map (interpolate env) vs)"
| "interpolate env (JObject kvs p) =
     (case fold assign_prop (map (\<lambda>kv. (fst kv, interpolate env (snd kv))) kvs)
             ([], ObjectPrototype) of
        (kvs', p') \<Rightarrow> JObject kvs' p')"
| "interpolate env v = v"


section \<open>Config loading\<close>

text \<open>
  What the loader takes from its runtime: the file system, the JSON parser, the process
  environment, the home directory, \<open>path.join\<close>, and the \<open>TypeError\<close> the engine
  throws when a property of \<open>null\<close> is read (its text differs between engines).
\<close>

record node =
  readFileSync :: "string \<Rightarrow> js_error + string"
  JSON_parse :: "string \<Rightarrow> js_error + json"
  process_env :: environment
  homedir :: string
  path_join :: "string list \<Rightarrow> string"
  null_TypeError :: "string \<Rightarrow> js_error"

text \<open>
  \<open>value[k]\<close> for a value other than \<open>null\<close> and a key that no built-in prototype
  defines (\<open>targets\<close> is one): an own property, or one found along the prototype chain.
\<close>

fun js_get :: "json \<Rightarrow> string \<Rightarrow> json option" where
  "js_get (JObject kvs p) k =
     (case map_of kvs k of
        Some v \<Rightarrow> Some v
      | None \<Rightarrow> (case p of ProtoOf obj \<Rightarrow> js_get obj k | _ \<Rightarrow> None))"
| "js_get v k = None"

text \<open>\<open>Array.isArray\<close> of a property that may be undefined.\<close>

fun isArray :: "json option \<Rightarrow> bool" where
  "isArray (Some (JArray vs)) = True"
| "isArray v = False"

definition empty_config :: json where
  "empty_config = JObject [(''targets'', JArray [])] ObjectPrototype"

definition em_dash :: string where
  "em_dash = [CHR 0xE2, CHR 0x80, CHR 0x94]"

definition warn_missing_targets :: "string \<Rightarrow> string" where
  "warn_missing_targets filePath =
     ''[opencode-event-push] '' @ filePath @ '' is missing a 'targets' array '' @ em_dash
       @ '' skipping''"

definition warn_could_not_read :: "string \<Rightarrow> js_error \<Rightarrow> string" where
  "warn_could_not_read filePath err =
     ''[opencode-event-push] Could not read '' @ filePath @ '': '' @ String_of_error err"

text \<open>
  The \<open>catch\<close> block of \<open>readConfigFile\<close>. The result of the function is the value it
  returns (\<open>None\<close> for \<open>null\<close>) and the messages it gave to \<open>console.warn\<close>.
\<close>

definition catch_block :: "string \<Rightarrow> js_error \<Rightarrow> json option \<times> string list" where
  "catch_block filePath err =
     (let isNotFound = (err_code err = Some ''ENOENT'')
      in (None, if \<not> isNotFound then [warn_could_not_read filePath err] else []))"

definition readConfigFile :: "node \<Rightarrow> string \<Rightarrow> json option \<times> string list" where
  "readConfigFile nd filePath =
     (case readFileSync nd filePath of
        Inl err \<Rightarrow> catch_block filePath err
      | Inr raw \<Rightarrow>
          (case JSON_parse nd raw of
             Inl err \<Rightarrow> catch_block filePath err
           | Inr v \<Rightarrow>
               (let parsed = interpolate (process_env nd) v in
                if parsed = JNull then catch_block filePath (null_TypeError nd ''targets'')
                else if \<not> isArray (js_get parsed ''targets'')
                  then (Some empty_config, [warn_missing_targets filePath])
                else (Some parsed, []))))"

record PluginConfig =
  targets :: "json list"

text \<open>
  \<open>...(config?.targets ?? [])\<close>. \<open>readConfigFile\<close> returns \<open>null\<close> or an object whose
  \<open>targets\<close> is an array (lemma \<open>readConfigFile_targets_array\<close> below), so the last
  case is never reached from \<open>loadConfig\<close>.
\<close>

fun spread_targets :: "json option \<Rightarrow> json list" where
  "spread_targets None = []"
| "spread_targets (Some config) =
     (case js_get config ''targets'' of Some (JArray ts) \<Rightarrow> ts | _ \<Rightarrow> [])"

definition config_file_name :: string where
  "config_file_name = ''opencode-event-push.json''"

text \<open>
  \<open>loadConfig\<close>. The directory is optional; \<open>directory ? \<dots> : null\<close> and
  \<open>projectPath ? \<dots> : null\<close> test truthiness, so \<open>undefined\<close> and the empty string
  both skip the project file.
\<close>

definition loadConfig :: "node \<Rightarrow> string option \<Rightarrow> PluginConfig \<times> string list" where
  "loadConfig nd directory =
     (let globalPath = path_join nd [homedir nd, ''.config'', ''opencode'', config_file_name];
          (globalConfig, warned1) = readConfigFile nd globalPath;
          projectPath =
            (case directory of
               None \<Rightarrow> None
             | Some d \<Rightarrow> if d \<noteq> [] then Some (path_join nd [d, config_file_name]) else None);
          (projectConfig, warned2) =
            (case projectPath of
               None \<Rightarrow> (None, [])
             | Some pp \<Rightarrow> if pp \<noteq> [] then readConfigFile nd pp else (None, []))
      in (\<lparr>targets = spread_targets globalConfig @ spread_targets projectConfig\<rparr>,
          warned1 @ warned2))"


section \<open>HTTP push with retry\<close>

record RetryConfig =
  attempts :: "int option"
  delayMs :: "int option"

record TargetConfig =
  url :: string
  events :: "string list option"
  retry :: "RetryConfig option"
  headers :: "(string \<times> string) list option"

text \<open>A number inside a template literal: its decimal digits.\<close>

definition digit_char :: "nat \<Rightarrow> char" where
  "digit_char d = ''0123456789'' ! d"

fun show_nat :: "nat \<Rightarrow> string" where
  "show_nat n = (if n < 10 then [digit_char n] else show_nat (n div 10) @ [digit_char (n mod 10)])"

declare show_nat.simps [simp del]

definition show_int :: "int \<Rightarrow> string" where
  "show_int i = (if i < 0 then CHR ''-'' # show_nat (nat (- i)) else show_nat (nat i))"

text \<open>
  The argument of \<open>fetch\<close>, with the body kept as the value that \<open>JSON.stringify\<close>
  serialises, and what \<open>fetch\<close> does: it fulfils with a response (status and status
  text) or rejects with an error.
\<close>

record request =
  req_url :: string
  req_method :: string
  req_headers :: "(string \<times> string) list"
  req_body :: json

datatype fetch_result = Response int string | FetchRejected js_error

text \<open>The two arguments of \<open>log\<close>: the message and the \<open>extra\<close> object.\<close>

record log_extra =
  extra_url :: string
  extra_error :: string
  extra_attempts :: int

record log_call =
  log_message :: string
  log_extra :: log_extra

text \<open>
  The value of \<open>baseDelay * 2 ** attempt\<close>. \<open>attempts\<close> and \<open>delayMs\<close> are
  integers that a double holds. The arithmetic is that of doubles: \<open>2 ** k\<close> is the
  power of two up to \<open>k = 1023\<close> and \<open>Infinity\<close> from \<open>1024\<close> on; the product
  of an integer and a power of two is exact while its magnitude is below \<open>2 ^ 1024\<close>
  and infinite from there on; and \<open>0 * Infinity\<close> is \<open>NaN\<close>.
\<close>

datatype number = Finite int | Infinity | MinusInfinity | NaN

definition js_pow2 :: "nat \<Rightarrow> number" where
  "js_pow2 k = (if k < 1024 then Finite (2 ^ k) else Infinity)"

fun js_times :: "int \<Rightarrow> number \<Rightarrow> number" where
  "js_times d (Finite p) =
     (if \<bar>d * p\<bar> < 2 ^ 1024 then Finite (d * p)
      else if 0 < d * p then Infinity else MinusInfinity)"
| "js_times d Infinity = (if d = 0 then NaN else if 0 < d then Infinity else MinusInfinity)"
| "js_times d MinusInfinity = (if d = 0 then NaN else if 0 < d then MinusInfinity else Infinity)"
| "js_times d NaN = NaN"

text \<open>
  What one delivery does, in order, and how its promise settles. \<open>Sleep d\<close> is
  \<open>setTimeout\<close> awaited with the delay \<open>d\<close> as computed; what the timer makes of
  a delay that is not finite is the runtime's.
\<close>

datatype effect = Fetch request | Sleep number | Log log_call

datatype outcome = Resolved | Rejected js_error

text \<open>\<open>{ "Content-Type": "application/json", ...headers }\<close>: a later key replaces an equal earlier one.\<close>

fun spread_headers :: "(string \<times> string) list \<Rightarrow> (string \<times> string) list \<Rightarrow> (string \<times> string) list" where
  "spread_headers acc [] = acc"
| "spread_headers acc ((k, v) # hs) =
     spread_headers (if k \<in> set (map fst acc) then map (\<lambda>(k', v'). if k' = k then (k', v) else (k', v')) acc
                     else acc @ [(k, v)]) hs"

definition make_request :: "string \<Rightarrow> (string \<times> string) list \<Rightarrow> json \<Rightarrow> request" where
  "make_request u hs payload =
     \<lparr>req_url = u, req_method = ''POST'',
      req_headers = spread_headers [(''Content-Type'', ''application/json'')] hs,
      req_body = payload\<rparr>"

text \<open>
  The body of the \<open>try\<close> block after the request: \<open>None\<close> when \<open>res.ok\<close> (a status
  from 200 to 299), otherwise the error that reaches the \<open>catch\<close> block.
\<close>

fun attempt_error :: "fetch_result \<Rightarrow> js_error option" where
  "attempt_error (Response status statusText) =
     (if 200 \<le> status \<and> status \<le> 299 then None
      else Some \<lparr>err_name = ''Error'',
                 err_message = ''HTTP '' @ show_int status @ '' '' @ statusText,
                 err_code = None\<rparr>)"
| "attempt_error (FetchRejected err) = Some err"

definition failure_log :: "string \<Rightarrow> int \<Rightarrow> js_error \<Rightarrow> log_call" where
  "failure_log u maxAttempts err =
     \<lparr>log_message = ''Failed to push event to '' @ u @ '' after '' @ show_int maxAttempts
        @ '' attempt(s): '' @ String_of_error err,
      log_extra = \<lparr>extra_url = u, extra_error = String_of_error err,
                   extra_attempts = maxAttempts\<rparr>\<rparr>"

text \<open>
  The \<open>for\<close> loop of \<open>pushToTarget\<close>, from attempt number \<open>attempt\<close> on (the
  counter is a double, exact for every count below \<open>2 ^ 53\<close>). \<open>fetch\<close> is
  given the number of the attempt, so that it may answer each attempt differently;
  \<open>log\<close> answers \<open>None\<close> when its promise fulfils and the error when it rejects.
\<close>

function push_loop :: "(nat \<Rightarrow> request \<Rightarrow> fetch_result) \<Rightarrow> (log_call \<Rightarrow> js_error option)
    \<Rightarrow> string \<Rightarrow> (string \<times> string) list \<Rightarrow> json \<Rightarrow> int \<Rightarrow> int \<Rightarrow> nat
    \<Rightarrow> effect list \<times> outcome" where
  "push_loop fetch log u hs payload maxAttempts baseDelay attempt =
     (if int attempt < maxAttempts then
        (let req = make_request u hs payload in
         case attempt_error (fetch attempt req) of
           None \<Rightarrow> ([Fetch req], Resolved)
         | Some err \<Rightarrow>
             (let isLastAttempt = (int attempt = maxAttempts - 1) in
              if isLastAttempt then
                (let call = failure_log u maxAttempts err in
                 ([Fetch req, Log call],
                  case log call of None \<Rightarrow> Resolved | Some e \<Rightarrow> Rejected e))
              else
                (let delay = js_times baseDelay (js_pow2 attempt);
                     (effects, out) =
                       push_loop fetch log u hs payload maxAttempts baseDelay (Suc attempt)
                 in (Fetch req # Sleep delay # effects, out))))
      else ([], Resolved))"
  by pat_completeness auto
termination
  by (relation "measure (\<lambda>(fetch, log, u, hs, payload, maxAttempts, baseDelay, attempt).
        nat (maxAttempts - int attempt))") auto

declare push_loop.simps [simp del]

definition pushToTarget :: "(nat \<Rightarrow> request \<Rightarrow> fetch_result) \<Rightarrow> (log_call \<Rightarrow> js_error option)
    \<Rightarrow> TargetConfig \<Rightarrow> json \<Rightarrow> effect list \<times> outcome" where
  "pushToTarget fetch log target payload =
     (let retry' = (case retry target of Some r \<Rightarrow> r | None \<Rightarrow> \<lparr>attempts = None, delayMs = None\<rparr>);
          headers' = (case headers target of Some h \<Rightarrow> h | None \<Rightarrow> []);
          maxAttempts = (case attempts retry' of Some n \<Rightarrow> n | None \<Rightarrow> 3);
          baseDelay = (case delayMs retry' of Some d \<Rightarrow> d | None \<Rightarrow> 500)
      in push_loop fetch log (url target) headers' payload maxAttempts baseDelay 0)"

text \<open>The requests, the waits and the logger calls of a delivery, each in order.\<close>

fun requests_of :: "effect list \<Rightarrow> request list" where
  "requests_of [] = []"
| "requests_of (Fetch r # es) = r # requests_of es"
| "requests_of (e # es) = requests_of es"

fun delays_of :: "effect list \<Rightarrow> number list" where
  "delays_of [] = []"
| "delays_of (Sleep d # es) = d # delays_of es"
| "delays_of (e # es) = delays_of es"

fun logs_of :: "effect list \<Rightarrow> log_call list" where
  "logs_of [] = []"
| "logs_of (Log c # es) = c # logs_of es"
| "logs_of (e # es) = logs_of es"


section \<open>Plugin\<close>

text \<open>An event of the host: its \<open>type\<close>, and the whole record, which is the payload.\<close>

record host_event =
  event_type :: string
  event_json :: json

text \<open>The argument of \<open>client.app.log\<close>, and the plugin's \<open>log\<close> function around it.\<close>

record log_body =
  service :: string
  level :: string
  body_message :: string
  body_extra :: log_extra

definition plugin_log :: "(log_body \<Rightarrow> js_error option) \<Rightarrow> log_call \<Rightarrow> js_error option" where
  "plugin_log client_app_log call =
     client_app_log \<lparr>service = ''opencode-event-push'', level = ''warn'',
                     body_message = log_message call, body_extra = log_extra call\<rparr>"

text \<open>
  The hooks object returned to the host. The \<open>event\<close> handler is a closure over the
  loaded \<open>targets\<close>; it is represented by the list it closes over, and \<open>{}\<close> has none.
\<close>

record hooks =
  event :: "json list option"

definition EventPushPlugin :: "node \<Rightarrow> string option \<Rightarrow> hooks \<times> string list" where
  "EventPushPlugin nd directory =
     (let (config, warned) = loadConfig nd directory in
      if length (targets config) = 0 then (\<lparr>event = None\<rparr>, warned)
      else (\<lparr>event = Some (targets config)\<rparr>, warned))"

text \<open>\<open>!t.events || t.events.length === 0 || t.events.includes(event.type)\<close>\<close>

definition matches :: "host_event \<Rightarrow> TargetConfig \<Rightarrow> bool" where
  "matches ev t =
     (case events t of
        None \<Rightarrow> True
      | Some es \<Rightarrow> length es = 0 \<or> event_type ev \<in> set es)"

text \<open>
  \<open>Promise.allSettled\<close> fulfils once every promise given to it has settled, whether
  fulfilled or rejected; the handler awaits it and drops its value.
\<close>

definition Promise_allSettled :: "outcome list \<Rightarrow> outcome" where
  "Promise_allSettled settled = Resolved"

text \<open>
  The body of the \<open>event\<close> handler over the loaded targets, typed \<open>TargetConfig[]\<close>.
  The deliveries run concurrently: each has its own answers from the network and from
  the host's logger, given by its position among the matching targets. The result lists
  every delivery started, with its target, and how the handler's own promise settles.
\<close>

definition event_handler :: "(nat \<Rightarrow> nat \<Rightarrow> request \<Rightarrow> fetch_result)
    \<Rightarrow> (nat \<Rightarrow> log_body \<Rightarrow> js_error option) \<Rightarrow> TargetConfig list \<Rightarrow> host_event
    \<Rightarrow> (TargetConfig \<times> effect list \<times> outcome) list \<times> outcome" where
  "event_handler net client_app_log ts ev =
     (let matchingTargets = filter (matches ev) ts in
      if length matchingTargets = 0 then ([], Resolved)
      else
        (let deliveries =
               map (\<lambda>(i, target).
                      (target, pushToTarget (net i) (plugin_log (client_app_log i)) target
                                 (event_json ev)))
                 (enumerate 0 matchingTargets)
         in (deliveries, Promise_allSettled (map (\<lambda>d. snd (snd d)) deliveries))))"

text \<open>
  The loaded targets are JSON values that \<open>readConfigFile\<close> casts to \<open>PluginConfig\<close>
  without a check. \<open>as_TargetConfig\<close> reads a value through the interface
  \<open>TargetConfig\<close>, and gives \<open>None\<close> for a value that does not have that type.
\<close>

fun as_string :: "json \<Rightarrow> string option" where
  "as_string (JString s) = Some s"
| "as_string v = None"

fun as_number :: "json \<Rightarrow> int option" where
  "as_number (JNumber n) = Some n"
| "as_number v = None"

fun as_header :: "string \<times> json \<Rightarrow> (string \<times> string) option" where
  "as_header (k, JString s) = Some (k, s)"
| "as_header (k, v) = None"

text \<open>An optional field: absent, or present with a value of its type.\<close>

definition optional :: "(json \<Rightarrow> 'a option) \<Rightarrow> json option \<Rightarrow> 'a option option" where
  "optional decode field =
     (case field of None \<Rightarrow> Some None | Some v \<Rightarrow> map_option Some (decode v))"

fun as_strings :: "json \<Rightarrow> string list option" where
  "as_strings (JArray vs) = those (map as_string vs)"
| "as_strings v = None"

fun as_headers :: "json \<Rightarrow> (string \<times> string) list option" where
  "as_headers (JObject kvs p) = those (map as_header kvs)"
| "as_headers v = None"

fun as_RetryConfig :: "json \<Rightarrow> RetryConfig option" where
  "as_RetryConfig (JObject kvs p) =
     (case (optional as_number (js_get (JObject kvs p) ''attempts''),
            optional as_number (js_get (JObject kvs p) ''delayMs'')) of
        (Some a, Some d) \<Rightarrow> Some \<lparr>attempts = a, delayMs = d\<rparr>
      | _ \<Rightarrow> None)"
| "as_RetryConfig v = None"

fun as_TargetConfig :: "json \<Rightarrow> TargetConfig option" where
  "as_TargetConfig (JObject kvs p) =
     (case (js_get (JObject kvs p) ''url'',
            optional as_strings (js_get (JObject kvs p) ''events''),
            optional as_RetryConfig (js_get (JObject kvs p) ''retry''),
            optional as_headers (js_get (JObject kvs p) ''headers'')) of
        (Some (JString u), Some es, Some r, Some hs) \<Rightarrow>
          Some \<lparr>url = u, events = es, retry = r, headers = hs\<rparr>
      | _ \<Rightarrow> None)"
| "as_TargetConfig v = None"

text \<open>
  The host calling \<open>hooks.event\<close> with an event: there may be no handler; otherwise the
  handler runs over the targets it closed over, read through their declared type.
\<close>

datatype 'a call = NoHandler | NotTargetConfig | Called 'a

definition call_event :: "(nat \<Rightarrow> nat \<Rightarrow> request \<Rightarrow> fetch_result)
    \<Rightarrow> (nat \<Rightarrow> log_body \<Rightarrow> js_error option) \<Rightarrow> hooks \<Rightarrow> host_event
    \<Rightarrow> ((TargetConfig \<times> effect list \<times> outcome) list \<times> outcome) call" where
  "call_event net client_app_log hk ev =
     (case event hk of
        None \<Rightarrow> NoHandler
      | Some loaded \<Rightarrow>
          (case those (map as_TargetConfig loaded) of
             None \<Rightarrow> NotTargetConfig
           | Some ts \<Rightarrow> Called (event_handler net client_app_log ts ev)))"


section \<open>Tokens\<close>

text \<open>
  The vocabulary of the substitution's contract: the token \<open>{env:NAME}\<close>, a name of one
  or more characters other than \<open>}\<close>, and a string in which some token occurs.
\<close>

definition token :: "string \<Rightarrow> string" where
  "token nm = ''{env:'' @ nm @ ''}''"

definition valid_name :: "string \<Rightarrow> bool" where
  "valid_name nm = (nm \<noteq> [] \<and> CHR ''}'' \<notin> set nm)"

definition occurs :: "string \<Rightarrow> bool" where
  "occurs s = (\<exists>p nm r. valid_name nm \<and> s = p @ token nm @ r)"

text \<open>
  A value as \<open>JSON.parse\<close> makes it, with the keys of each object distinct, in which
  no string holds a token and no object has the key \<open>__proto__\<close>.
\<close>

fun plain_json :: "json \<Rightarrow> bool" where
  "plain_json (JString s) = (\<not> occurs s)"
| "plain_json (JArray vs) = list_all plain_json vs"
| "plain_json (JObject kvs p) =
     (p = ObjectPrototype \<and> distinct (map fst kvs) \<and> ''__proto__'' \<notin> set (map fst kvs)
      \<and> list_all (\<lambda>kv. plain_json (snd kv)) kvs)"
| "plain_json v = True"

section \<open>Effective retry policy\<close>

text \<open>
  The retry policy in effect for a target, \<open>retry.attempts ?? 3\<close> and
  \<open>retry.delayMs ?? 500\<close>, and the request every attempt sends.
\<close>

definition effective_attempts :: "TargetConfig \<Rightarrow> int" where
  "effective_attempts t =
     (case retry t of
        None \<Rightarrow> 3
      | Some r \<Rightarrow> (case attempts r of None \<Rightarrow> 3 | Some n \<Rightarrow> n))"

definition effective_delay :: "TargetConfig \<Rightarrow> int" where
  "effective_delay t =
     (case retry t of
        None \<Rightarrow> 500
      | Some r \<Rightarrow> (case delayMs r of None \<Rightarrow> 500 | Some d \<Rightarrow> d))"

definition request_of :: "TargetConfig \<Rightarrow> json \<Rightarrow> request" where
  "request_of t payload =
     make_request (url t) (case headers t of None \<Rightarrow> [] | Some hs \<Rightarrow> hs) payload"

section \<open>Test doubles\<close>

text \<open>
  The doubles of the test suite, used for the concrete runs below: a file system given by
  a table of paths (any other path fails with \<open>ENOENT\<close>), a parser given by the table
  of the texts it accepts (any other text is a \<open>SyntaxError\<close>), an environment given by
  the table of its variables, the home directory \<open>/home/testuser\<close>, and paths joined with \<open>/\<close>
  (\<open>path.join\<close> gives \<open>.\<close> where the joined path would be empty).
\<close>

definition ENOENT :: js_error where
  "ENOENT = \<lparr>err_name = ''Error'', err_message = ''ENOENT'', err_code = Some ''ENOENT''\<rparr>"

definition SyntaxError :: js_error where
  "SyntaxError = \<lparr>err_name = ''SyntaxError'', err_message = ''Unexpected token'', err_code = None\<rparr>"

fun join_slash :: "string list \<Rightarrow> string" where
  "join_slash [] = ''.''"
| "join_slash [x] = x"
| "join_slash (x # xs) = x @ ''/'' @ join_slash xs"

definition mock_native_text :: "string \<Rightarrow> string" where
  "mock_native_text nm =
     ''function '' @ (if nm = ''constructor'' then ''Object'' else nm) @ ''() { [native code] }''"

definition mock_env :: "(string \<times> string) list \<Rightarrow> environment" where
  "mock_env vars = \<lparr>variables = map_of vars, native_text = mock_native_text\<rparr>"

definition mock_path_join :: "string list \<Rightarrow> string" where
  "mock_path_join segments = (if join_slash segments = [] then ''.'' else join_slash segments)"

definition mock_node :: "(string \<times> string) list \<Rightarrow> (string \<times> json) list
    \<Rightarrow> (string \<times> string) list \<Rightarrow> node" where
  "mock_node files parses vars =
     \<lparr>readFileSync = (\<lambda>path. case map_of files path of Some raw \<Rightarrow> Inr raw | None \<Rightarrow> Inl ENOENT),
      JSON_parse = (\<lambda>raw. case map_of parses raw of Some v \<Rightarrow> Inr v | None \<Rightarrow> Inl SyntaxError),
      process_env = mock_env vars,
      homedir = ''/home/testuser'',
      path_join = mock_path_join,
      null_TypeError = (\<lambda>k. \<lparr>err_name = ''TypeError'',
                              err_message = ''null has no property '' @ k, err_code = None\<rparr>)\<rparr>"

text \<open>
  The fixtures of the delivery tests: the target \<open>https://hook.example.com/push\<close> with
  a given number of attempts and no delay, the payload, a \<open>fetch\<close> that always rejects,
  a \<open>fetch\<close> that always answers 500, a logger that fulfils and one that rejects.
\<close>

definition hook_target :: "int \<Rightarrow> TargetConfig" where
  "hook_target n =
     \<lparr>url = ''https://hook.example.com/push'', events = None,
      retry = Some \<lparr>attempts = Some n, delayMs = Some 0\<rparr>, headers = None\<rparr>"


definition test_payload :: json where
  "test_payload =
     JObject [(''type'', JString ''session.created''), (''sessionId'', JString ''abc'')]
       ObjectPrototype"

definition always_fails :: "nat \<Rightarrow> request \<Rightarrow> fetch_result" where
  "always_fails attempt req =
     FetchRejected \<lparr>err_name = ''Error'', err_message = ''always fails'', err_code = None\<rparr>"

definition always_500 :: "nat \<Rightarrow> request \<Rightarrow> fetch_result" where
  "always_500 attempt req = Response 500 ''Internal Server Error''"

definition log_fulfils :: "log_call \<Rightarrow> js_error option" where
  "log_fulfils call = None"

definition log_unavailable :: js_error where
  "log_unavailable = \<lparr>err_name = ''Error'', err_message = ''log unavailable'', err_code = None\<rparr>"

definition log_rejects :: "log_call \<Rightarrow> js_error option" where
  "log_rejects call = Some log_unavailable"

text \<open>
  The fixtures of the \<open>loadConfig\<close> tests: a global file with two targets and a project
  file with one, as texts and as the values that \<open>JSON.parse\<close> makes of them.
\<close>

definition global_target :: json where
  "global_target = JObject [(''url'', JString ''https://global.example.com'')] ObjectPrototype"

definition second_global_target :: json where
  "second_global_target =
     JObject [(''url'', JString ''https://global.example.com/second'')] ObjectPrototype"

definition project_target :: json where
  "project_target = JObject [(''url'', JString ''https://project.example.com'')] ObjectPrototype"

definition config_of :: "json list \<Rightarrow> json" where
  "config_of ts = JObject [(''targets'', JArray ts)] ObjectPrototype"

definition global_text :: string where
  \<open>global_text =
     ''{"targets":[{"url":"https://global.example.com"},{"url":"https://global.example.com/second"}]}''\<close>

definition project_text :: string where
  \<open>project_text = ''{"targets":[{"url":"https://project.example.com"}]}''\<close>

definition both_files :: node where
  "both_files =
     mock_node
       [(''/home/testuser/.config/opencode/opencode-event-push.json'', global_text),
        (''/proj/opencode-event-push.json'', project_text)]
       [(global_text, config_of [global_target, second_global_target]),
        (project_text, config_of [project_target])]
       []"

text \<open>The fixtures of the dispatch tests: a catch-all target and a target for one type.\<close>

definition target_A :: TargetConfig where
  "target_A = \<lparr>url = ''https://a.example.com'', events = Some [], retry = None, headers = None\<rparr>"

definition target_B :: TargetConfig where
  "target_B = \<lparr>url = ''https://b.example.com'', events = Some [''x''], retry = None, headers = None\<rparr>"

definition event_y :: host_event where
  "event_y = \<lparr>event_type = ''y'', event_json = JObject [(''type'', JString ''y'')] ObjectPrototype\<rparr>"

definition test_env :: environment where
  "test_env = mock_env [(''TEST_VAR'', ''hello''), (''ANOTHER_VAR'', ''world'')]"

section \<open>Properties of the config loader\<close>

text \<open>
  C7. When the read fails because the file does not exist (\<open>ENOENT\<close>),
  \<open>readConfigFile\<close> returns \<open>null\<close> and warns nothing; the parser is not consulted,
  since the result is the same whatever the parser is.
\<close>

theorem readConfigFile_ENOENT:
  assumes "readFileSync nd filePath = Inl err" and "err_code err = Some ''ENOENT''"
  shows "readConfigFile (nd\<lparr>JSON_parse := parse\<rparr>) filePath = (None, [])"
  using assms by (simp add: readConfigFile_def catch_block_def)

theorem readConfigFile_ENOENT_witness:
  "readConfigFile (mock_node [] [] []) ''/missing.json'' = (None, [])"
proof -
  let ?nd = "mock_node [] [] []"
  have "readFileSync ?nd ''/missing.json'' = Inl ENOENT"
    by (simp add: mock_node_def)
  moreover have "err_code ENOENT = Some ''ENOENT''"
    by (simp add: ENOENT_def)
  ultimately have "readConfigFile (?nd\<lparr>JSON_parse := JSON_parse ?nd\<rparr>) ''/missing.json'' = (None, [])"
    by (rule readConfigFile_ENOENT)
  then show ?thesis by simp
qed

text \<open>
  C1. When the read succeeds and the content fails to parse as JSON, the error of
  \<open>JSON.parse\<close> reaches the \<open>catch\<close> block: \<open>readConfigFile\<close> emits exactly one
  warning and returns \<open>null\<close>, the marker of an absent file, and not a configuration
  with an empty target list.
\<close>

theorem readConfigFile_malformed_JSON:
  assumes "readFileSync nd filePath = Inr raw" and "JSON_parse nd raw = Inl err"
    and "err_code err \<noteq> Some ''ENOENT''"
  shows "readConfigFile nd filePath = (None, [warn_could_not_read filePath err])"
  using assms by (simp add: readConfigFile_def catch_block_def)

theorem readConfigFile_malformed_JSON_witness:
  "readConfigFile (mock_node [(''/malformed.json'', ''not valid json {{{'')] [] []) ''/malformed.json''
     = (None, [''[opencode-event-push] Could not read /malformed.json: SyntaxError: Unexpected token''])
   \<and> fst (readConfigFile (mock_node [(''/malformed.json'', ''not valid json {{{'')] [] [])
           ''/malformed.json'') \<noteq> Some empty_config"
proof -
  let ?nd = "mock_node [(''/malformed.json'', ''not valid json {{{'')] [] []"
  have "readFileSync ?nd ''/malformed.json'' = Inr ''not valid json {{{''"
    by (simp add: mock_node_def)
  moreover have "JSON_parse ?nd ''not valid json {{{'' = Inl SyntaxError"
    by (simp add: mock_node_def)
  moreover have "err_code SyntaxError \<noteq> Some ''ENOENT''"
    by (simp add: SyntaxError_def)
  ultimately have "readConfigFile ?nd ''/malformed.json''
      = (None, [warn_could_not_read ''/malformed.json'' SyntaxError])"
    by (rule readConfigFile_malformed_JSON)
  then show ?thesis
    by (simp add: warn_could_not_read_def String_of_error_def SyntaxError_def)
qed

section \<open>Properties of the substitution\<close>

lemma match_token_iff:
  "match_token s = Some (nm, r) \<longleftrightarrow> valid_name nm \<and> s = token nm @ r"
proof
  assume m: "match_token s = Some (nm, r)"
  let ?P = "\<lambda>c. c \<noteq> CHR ''}''"
  let ?t = "drop 5 s"
  from m have five: "take 5 s = ''{env:''" and nm: "nm = takeWhile ?P ?t"
    and ne: "nm \<noteq> []" and dne: "dropWhile ?P ?t \<noteq> []" and r: "r = tl (dropWhile ?P ?t)"
    by (auto simp: match_token_def Let_def split: if_splits)
  from dne have "\<not> ?P (hd (dropWhile ?P ?t))" by (rule hd_dropWhile)
  with dne r have d: "dropWhile ?P ?t = CHR ''}'' # r"
    by (cases "dropWhile ?P ?t") auto
  have "s = take 5 s @ ?t" by simp
  also have "?t = takeWhile ?P ?t @ dropWhile ?P ?t" by simp
  finally have "s = ''{env:'' @ nm @ CHR ''}'' # r"
    using five nm d by simp
  moreover have "CHR ''}'' \<notin> set nm"
    unfolding nm by (auto dest: set_takeWhileD)
  ultimately show "valid_name nm \<and> s = token nm @ r"
    using ne by (simp add: valid_name_def token_def)
next
  assume "valid_name nm \<and> s = token nm @ r"
  then have ne: "nm \<noteq> []" and nb: "CHR ''}'' \<notin> set nm" and s: "s = ''{env:'' @ nm @ CHR ''}'' # r"
    by (simp_all add: valid_name_def token_def)
  let ?P = "\<lambda>c. c \<noteq> CHR ''}''"
  from nb have all: "\<And>x. x \<in> set nm \<Longrightarrow> ?P x" by auto
  have tw: "takeWhile ?P (nm @ CHR ''}'' # r) = nm"
    using all by (simp add: takeWhile_tail)
  have dw: "dropWhile ?P (nm @ CHR ''}'' # r) = CHR ''}'' # r"
    using all by (simp add: dropWhile_append3)
  show "match_token s = Some (nm, r)"
    unfolding s match_token_def using tw dw ne by (simp add: Let_def)
qed

lemma no_occurs_Cons:
  assumes "\<not> occurs (c # cs)"
  shows "match_token (c # cs) = None" and "\<not> occurs cs"
proof -
  show "match_token (c # cs) = None"
  proof (cases "match_token (c # cs)")
    case None then show ?thesis .
  next
    case (Some a)
    obtain nm r where "a = (nm, r)" by (cases a)
    with Some have "valid_name nm \<and> c # cs = [] @ token nm @ r"
      by (simp add: match_token_iff)
    with assms show ?thesis unfolding occurs_def by blast
  qed
  show "\<not> occurs cs"
  proof
    assume "occurs cs"
    then obtain p nm r where "valid_name nm" "cs = p @ token nm @ r"
      unfolding occurs_def by blast
    then have "valid_name nm \<and> c # cs = (c # p) @ token nm @ r" by simp
    with assms show False unfolding occurs_def by blast
  qed
qed

lemma replace_env_no_token: "\<not> occurs s \<Longrightarrow> replace_env env s = s"
proof (induction s)
  case Nil show ?case by simp
next
  case (Cons c cs)
  from Cons.prems have "match_token (c # cs) = None" "\<not> occurs cs"
    by (rule no_occurs_Cons)+
  with Cons.IH show ?case by simp
qed

lemma replace_env_leftmost:
  assumes "valid_name nm"
    and "\<forall>p' nm' r'. valid_name nm' \<and> p @ token nm @ r = p' @ token nm' @ r' \<longrightarrow> length p \<le> length p'"
  shows "replace_env env (p @ token nm @ r) = p @ env_value env nm @ replace_env env r"
  using assms(2)
proof (induction p)
  case Nil
  have "match_token (token nm @ r) = Some (nm, r)"
    using assms(1) by (simp add: match_token_iff)
  moreover have "token nm @ r = CHR ''{'' # tl (token nm @ r)"
    by (simp add: token_def)
  ultimately show ?case
    by (metis append_Nil replace_env.simps(2) option.simps(5) prod.simps(2))
next
  case (Cons c p)
  have none: "match_token (c # p @ token nm @ r) = None"
  proof (cases "match_token (c # p @ token nm @ r)")
    case None then show ?thesis .
  next
    case (Some a)
    obtain nm' r' where "a = (nm', r')" by (cases a)
    with Some have "valid_name nm' \<and> (c # p) @ token nm @ r = [] @ token nm' @ r'"
      by (simp add: match_token_iff)
    with Cons.prems have "length (c # p) \<le> length ([]::string)" by blast
    then show ?thesis by simp
  qed
  have "\<forall>p' nm' r'. valid_name nm' \<and> p @ token nm @ r = p' @ token nm' @ r' \<longrightarrow> length p \<le> length p'"
  proof (intro allI impI)
    fix p' nm' r'
    assume "valid_name nm' \<and> p @ token nm @ r = p' @ token nm' @ r'"
    then have "valid_name nm' \<and> (c # p) @ token nm @ r = (c # p') @ token nm' @ r'" by simp
    with Cons.prems have "length (c # p) \<le> length (c # p')" by blast
    then show "length p \<le> length p'" by simp
  qed
  with Cons.IH have "replace_env env (p @ token nm @ r) = p @ env_value env nm @ replace_env env r" .
  with none show ?case by simp
qed

lemma token_after_text:
  assumes "CHR ''{'' \<notin> set p" and "p @ x = p' @ token nm' @ r'"
  shows "length p \<le> length p'"
proof (rule ccontr)
  assume "\<not> length p \<le> length p'"
  then have lt: "length p' < length p" by simp
  then have "(p @ x) ! length p' = p ! length p'" by (simp add: nth_append)
  moreover have "(p' @ token nm' @ r') ! length p' = CHR ''{''"
    by (simp add: token_def)
  ultimately have "p ! length p' = CHR ''{''" using assms(2) by simp
  with lt have "CHR ''{'' \<in> set p" by (metis nth_mem)
  with assms(1) show False by simp
qed

lemma no_brace_no_token:
  assumes "CHR ''{'' \<notin> set s"
  shows "\<not> occurs s"
proof
  assume "occurs s"
  then obtain p nm r where "s = p @ token nm @ r" unfolding occurs_def by blast
  then have "CHR ''{'' \<in> set s" by (simp add: token_def)
  with assms show False by simp
qed


text \<open>
  What holds of the substitution on a string. A string in which no token occurs is
  returned as it is. Otherwise, for the leftmost token \<open>{env:NAME}\<close> of the string,
  the text before it is kept, the token is replaced by what \<open>process.env[NAME] ?? ""\<close>
  gives, and the text after it is substituted in the same way. When \<open>NAME\<close> is set
  that is its value, and when \<open>NAME\<close> is found nowhere it is the empty string.
\<close>

lemma interpolate_leftmost_token:
  "(\<not> occurs s \<longrightarrow> interpolate env (JString s) = JString s) \<and>
   (\<forall>p nm r. valid_name nm \<and> s = p @ token nm @ r \<and>
       (\<forall>p' nm' r'. valid_name nm' \<and> s = p' @ token nm' @ r' \<longrightarrow> length p \<le> length p') \<longrightarrow>
     (\<exists>r'. interpolate env (JString r) = JString r' \<and>
        interpolate env (JString s) = JString (p @ env_value env nm @ r')))"
proof (intro conjI allI impI)
  assume "\<not> occurs s"
  then show "interpolate env (JString s) = JString s"
    by (simp add: replace_env_no_token)
next
  fix p nm r
  assume a: "valid_name nm \<and> s = p @ token nm @ r \<and>
       (\<forall>p' nm' r'. valid_name nm' \<and> s = p' @ token nm' @ r' \<longrightarrow> length p \<le> length p')"
  then have "replace_env env (p @ token nm @ r) = p @ env_value env nm @ replace_env env r"
    by (intro replace_env_leftmost) auto
  with a have "interpolate env (JString s) = JString (p @ env_value env nm @ replace_env env r)"
    by simp
  then show "\<exists>r'. interpolate env (JString r) = JString r' \<and>
        interpolate env (JString s) = JString (p @ env_value env nm @ r')"
    by simp
qed

lemma env_value_set: "variables env nm = Some v \<Longrightarrow> env_value env nm = v"
  by (simp add: env_value_def)

lemma env_value_unset:
  "variables env nm = None \<Longrightarrow> nm \<noteq> ''__proto__'' \<Longrightarrow> nm \<notin> set Object_prototype_functions \<Longrightarrow>
   env_value env nm = []"
  by (simp add: env_value_def)

lemma interpolate_examples:
  "interpolate test_env (JString ''{env:TEST_VAR} {env:ANOTHER_VAR}'') = JString ''hello world''"
  "interpolate test_env (JString ''prefix-{env:TEST_VAR}-suffix'') = JString ''prefix-hello-suffix''"
  "interpolate test_env (JString ''{env:DEFINITELY_NOT_SET_12345}'') = JString []"
  by (simp_all add: match_token_def env_value_def test_env_def mock_env_def
      Object_prototype_functions_def)

text \<open>
  C5. The claim fails for a name that is not set and that \<open>Object.prototype\<close> has:
  \<open>process.env[name]\<close> is a property read, it finds the inherited property, and
  \<open>??\<close> keeps it. With no variable \<open>constructor\<close> and no variable \<open>__proto__\<close>
  set, the token \<open>{env:constructor}\<close> is replaced by the text of the function
  \<open>Object\<close>, and \<open>{env:__proto__}\<close> by \<open>[object Object]\<close>, where the claim and
  the function's comment give the empty string.
\<close>

theorem interpolate_inherited_name:
  "variables test_env ''constructor'' = None
   \<and> interpolate test_env (JString ''{env:constructor}'')
       = JString ''function Object() { [native code] }''
   \<and> variables test_env ''__proto__'' = None
   \<and> interpolate test_env (JString ''{env:__proto__}'') = JString ''[object Object]''"
  by (simp add: match_token_def env_value_def test_env_def mock_env_def
      Object_prototype_functions_def mock_native_text_def)

lemma update_prop_new: "k \<notin> set (map fst kvs) \<Longrightarrow> update_prop k v kvs = kvs @ [(k, v)]"
  by (induction kvs) auto

lemma fold_assign_prop_plain:
  assumes "distinct (map fst (acc @ kvs))" and "''__proto__'' \<notin> set (map fst kvs)"
  shows "fold assign_prop kvs (acc, p) = (acc @ kvs, p)"
  using assms
proof (induction kvs arbitrary: acc)
  case Nil
  show ?case by simp
next
  case (Cons kv kvs)
  obtain k v where kv: "kv = (k, v)" by (cases kv)
  from Cons.prems kv have new: "k \<notin> set (map fst acc)" and np: "k \<noteq> ''__proto__''"
    by auto
  then have step: "assign_prop kv (acc, p) = (acc @ [kv], p)"
    by (simp add: kv update_prop_new)
  from Cons.prems have "distinct (map fst ((acc @ [kv]) @ kvs))" by simp
  moreover from Cons.prems have "''__proto__'' \<notin> set (map fst kvs)" by simp
  ultimately have "fold assign_prop kvs (acc @ [kv], p) = ((acc @ [kv]) @ kvs, p)"
    by (rule Cons.IH)
  with step show ?case by simp
qed

lemma interpolate_plain: "plain_json v \<Longrightarrow> interpolate env v = v"
proof (induction v)
  case (JString s)
  then show ?case by (simp add: replace_env_no_token)
next
  case (JArray vs)
  then have "map (interpolate env) vs = vs"
    by (simp add: list_all_iff map_idI)
  then show ?case by simp
next
  case (JObject kvs p)
  have "\<And>kv. kv \<in> set kvs \<Longrightarrow> (fst kv, interpolate env (snd kv)) = kv"
  proof -
    fix kv assume m: "kv \<in> set kvs"
    obtain k v where kv: "kv = (k, v)" by (cases kv)
    from m kv JObject.prems have "plain_json v" by (auto simp: list_all_iff)
    moreover from m kv have "v \<in> Basic_BNFs.snds kv" "kv \<in> set kvs" by auto
    ultimately have "interpolate env v = v" using JObject.IH(1) by blast
    with kv show "(fst kv, interpolate env (snd kv)) = kv" by simp
  qed
  then have "map (\<lambda>kv. (fst kv, interpolate env (snd kv))) kvs = kvs"
    by (simp add: map_idI)
  moreover from JObject.prems have "fold assign_prop kvs ([], ObjectPrototype) = ([] @ kvs, ObjectPrototype)"
    by (intro fold_assign_prop_plain) simp_all
  ultimately show ?case using JObject.prems by simp
qed simp_all

text \<open>
  C6. A value without tokens is returned structurally equal when, in addition, none of its
  objects has the key \<open>__proto__\<close> (lemma \<open>interpolate_plain\<close>). An object with that
  key is not: \<open>interpolate\<close> copies the entries with \<open>result[k] = \<dots>\<close>, and for
  \<open>k = "__proto__"\<close> the assignment reaches the accessor of \<open>Object.prototype\<close>
  and creates no property. The value parsed from \<open>{"__proto__": 1, "a": "b"}\<close> has no
  token, and its copy has lost the key.
\<close>

theorem interpolate_drops_proto_key:
  "interpolate env (JObject [(''__proto__'', JNumber 1), (''a'', JString ''b'')] ObjectPrototype)
     = JObject [(''a'', JString ''b'')] ObjectPrototype
   \<and> interpolate env (JObject [(''__proto__'', JNumber 1), (''a'', JString ''b'')] ObjectPrototype)
     \<noteq> JObject [(''__proto__'', JNumber 1), (''a'', JString ''b'')] ObjectPrototype"
  by (simp add: match_token_def)


section \<open>Properties of the delivery\<close>

lemma push_loop_done:
  "\<not> int a < n \<Longrightarrow> push_loop fetch log u hs payload n d a = ([], Resolved)"
  by (subst push_loop.simps) simp

lemma push_loop_success:
  "int a < n \<Longrightarrow> attempt_error (fetch a (make_request u hs payload)) = None \<Longrightarrow>
   push_loop fetch log u hs payload n d a = ([Fetch (make_request u hs payload)], Resolved)"
  by (subst push_loop.simps) (simp add: Let_def)

lemma push_loop_last:
  "int a = n - 1 \<Longrightarrow> attempt_error (fetch a (make_request u hs payload)) = Some err \<Longrightarrow>
   push_loop fetch log u hs payload n d a =
     ([Fetch (make_request u hs payload), Log (failure_log u n err)],
      case log (failure_log u n err) of None \<Rightarrow> Resolved | Some e \<Rightarrow> Rejected e)"
  by (subst push_loop.simps) (simp add: Let_def)

lemma push_loop_retry:
  "int a < n - 1 \<Longrightarrow> attempt_error (fetch a (make_request u hs payload)) = Some err \<Longrightarrow>
   push_loop fetch log u hs payload n d a =
     (Fetch (make_request u hs payload) # Sleep (js_times d (js_pow2 a))
        # fst (push_loop fetch log u hs payload n d (Suc a)),
      snd (push_loop fetch log u hs payload n d (Suc a)))"
  by (subst push_loop.simps) (simp add: Let_def split_beta)

text \<open>The outcome is decided by the logger call, when there is one.\<close>

lemma push_loop_outcome:
  "snd (push_loop fetch log u hs payload n d a) =
     (case logs_of (fst (push_loop fetch log u hs payload n d a)) of
        [] \<Rightarrow> Resolved
      | call # calls \<Rightarrow> (case log call of None \<Rightarrow> Resolved | Some e \<Rightarrow> Rejected e))"
proof (induction fetch log u hs payload n d a rule: push_loop.induct)
  case (1 fetch log u hs payload n d a)
  let ?req = "make_request u hs payload"
  show ?case
  proof (cases "int a < n")
    case False
    then show ?thesis by (simp add: push_loop_done)
  next
    case lt: True
    show ?thesis
    proof (cases "attempt_error (fetch a ?req)")
      case None
      with lt show ?thesis by (simp add: push_loop_success)
    next
      case (Some err)
      show ?thesis
      proof (cases "int a = n - 1")
        case True
        with Some show ?thesis by (simp add: push_loop_last)
      next
        case False
        with lt have r: "int a < n - 1" by simp
        have "snd (push_loop fetch log u hs payload n d (Suc a)) =
          (case logs_of (fst (push_loop fetch log u hs payload n d (Suc a))) of
             [] \<Rightarrow> Resolved
           | call # calls \<Rightarrow> (case log call of None \<Rightarrow> Resolved | Some e \<Rightarrow> Rejected e))"
          using "1.IH" [OF lt refl Some refl False refl] .
        with r Some show ?thesis by (simp add: push_loop_retry)
      qed
    qed
  qed
qed

text \<open>When every attempt from \<open>a\<close> on fails.\<close>

lemma push_loop_all_fail:
  assumes "\<And>j. a \<le> j \<Longrightarrow> int j < n \<Longrightarrow> attempt_error (fetch j (make_request u hs payload)) \<noteq> None"
    and "int a < n"
  shows "requests_of (fst (push_loop fetch log u hs payload n d a))
           = replicate (nat n - a) (make_request u hs payload)
       \<and> delays_of (fst (push_loop fetch log u hs payload n d a))
           = map (\<lambda>i. js_times d (js_pow2 i)) [a..<nat n - 1]
       \<and> logs_of (fst (push_loop fetch log u hs payload n d a))
           = [failure_log u n (the (attempt_error (fetch (nat n - 1) (make_request u hs payload))))]"
  using assms
proof (induction fetch log u hs payload n d a rule: push_loop.induct)
  case (1 fetch log u hs payload n d a)
  let ?req = "make_request u hs payload"
  from "1.prems" have "attempt_error (fetch a ?req) \<noteq> None" by simp
  then obtain err where Some: "attempt_error (fetch a ?req) = Some err" by auto
  have lt: "int a < n" by fact
  show ?case
  proof (cases "int a = n - 1")
    case True
    then have "nat n - 1 = a" "nat n - a = 1" by simp_all
    with True Some show ?thesis by (simp add: push_loop_last)
  next
    case False
    with lt have r: "int a < n - 1" by simp
    then have lt': "int (Suc a) < n" by simp
    have "requests_of (fst (push_loop fetch log u hs payload n d (Suc a)))
           = replicate (nat n - Suc a) ?req
       \<and> delays_of (fst (push_loop fetch log u hs payload n d (Suc a)))
           = map (\<lambda>i. js_times d (js_pow2 i)) [Suc a..<nat n - 1]
       \<and> logs_of (fst (push_loop fetch log u hs payload n d (Suc a)))
           = [failure_log u n (the (attempt_error (fetch (nat n - 1) ?req)))]"
      using "1.IH" [OF lt refl Some refl False refl] "1.prems"(1) lt' by simp
    moreover from r have "nat n - a = Suc (nat n - Suc a)" by linarith
    moreover from r have "[a..<nat n - 1] = a # [Suc a..<nat n - 1]"
      by (simp add: upt_conv_Cons)
    ultimately show ?thesis using r Some by (simp add: push_loop_retry)
  qed
qed




lemma pushToTarget_push_loop:
  "pushToTarget fetch log target payload =
     push_loop fetch log (url target) (case headers target of None \<Rightarrow> [] | Some hs \<Rightarrow> hs)
       payload (effective_attempts target) (effective_delay target) 0"
  by (simp add: pushToTarget_def effective_attempts_def effective_delay_def Let_def
      split: option.splits)





text \<open>
  C3, as amended. With effective attempts \<open>n \<ge> 1\<close>, when every attempt fails (a status
  outside 200 to 299, or a rejected \<open>fetch\<close>), the delivery sends exactly \<open>n\<close>
  requests, each a POST to the target's URL, and calls the logger exactly once, with a
  message made of the URL, the attempt count and the last error's description, and with
  the extra fields \<open>url\<close>, \<open>error\<close> and \<open>attempts\<close>. It then returns normally
  when that call of the logger fulfils, and rejects with the logger's error when it
  rejects.
\<close>

theorem pushToTarget_exhausted:
  assumes "1 \<le> effective_attempts target"
    and "\<forall>j. int j < effective_attempts target \<longrightarrow>
           attempt_error (fetch j (request_of target payload)) \<noteq> None"
  shows "requests_of (fst (pushToTarget fetch log target payload))
           = replicate (nat (effective_attempts target)) (request_of target payload)
       \<and> req_method (request_of target payload) = ''POST''
       \<and> req_url (request_of target payload) = url target
       \<and> (\<exists>err call.
            attempt_error (fetch (nat (effective_attempts target) - 1)
                             (request_of target payload)) = Some err
            \<and> call = \<lparr>log_message = ''Failed to push event to '' @ url target @ '' after ''
                         @ show_int (effective_attempts target) @ '' attempt(s): ''
                         @ String_of_error err,
                       log_extra = \<lparr>extra_url = url target, extra_error = String_of_error err,
                                    extra_attempts = effective_attempts target\<rparr>\<rparr>
            \<and> logs_of (fst (pushToTarget fetch log target payload)) = [call]
            \<and> snd (pushToTarget fetch log target payload)
                = (case log call of None \<Rightarrow> Resolved | Some e \<Rightarrow> Rejected e))"
proof -
  let ?hs = "case headers target of None \<Rightarrow> [] | Some hs \<Rightarrow> hs"
  let ?n = "effective_attempts target"
  let ?req = "make_request (url target) ?hs payload"
  let ?run = "push_loop fetch log (url target) ?hs payload ?n (effective_delay target) 0"
  have fail: "\<And>j. 0 \<le> j \<Longrightarrow> int j < ?n \<Longrightarrow> attempt_error (fetch j ?req) \<noteq> None"
    using assms(2) by (simp add: request_of_def)
  have pos: "int 0 < ?n" using assms(1) by simp
  have all: "requests_of (fst ?run) = replicate (nat ?n - 0) ?req
       \<and> delays_of (fst ?run)
           = map (\<lambda>i. js_times (effective_delay target) (js_pow2 i)) [0..<nat ?n - 1]
       \<and> logs_of (fst ?run) = [failure_log (url target) ?n (the (attempt_error (fetch (nat ?n - 1) ?req)))]"
    using fail pos by (rule push_loop_all_fail)
  from assms(1) have "int (nat ?n - 1) < ?n" by simp
  with fail have "attempt_error (fetch (nat ?n - 1) ?req) \<noteq> None" by simp
  then obtain err where err: "attempt_error (fetch (nat ?n - 1) ?req) = Some err" by auto
  have out: "snd ?run = (case log (failure_log (url target) ?n err) of
      None \<Rightarrow> Resolved | Some e \<Rightarrow> Rejected e)"
    using all err by (simp add: push_loop_outcome [of fetch log])
  from all err out show ?thesis
    by (simp add: pushToTarget_push_loop request_of_def failure_log_def make_request_def)
qed

theorem pushToTarget_exhausted_witness:
  "requests_of (fst (pushToTarget always_fails log_fulfils (hook_target 3) test_payload))
     = [request_of (hook_target 3) test_payload, request_of (hook_target 3) test_payload,
        request_of (hook_target 3) test_payload]
   \<and> logs_of (fst (pushToTarget always_fails log_fulfils (hook_target 3) test_payload))
     = [\<lparr>log_message = ''Failed to push event to https://hook.example.com/push after 3 attempt(s): Error: always fails'',
         log_extra = \<lparr>extra_url = ''https://hook.example.com/push'',
                      extra_error = ''Error: always fails'', extra_attempts = 3\<rparr>\<rparr>]
   \<and> snd (pushToTarget always_fails log_fulfils (hook_target 3) test_payload) = Resolved"
proof -
  have n: "effective_attempts (hook_target 3) = 3"
    by (simp add: effective_attempts_def hook_target_def)
  have "1 \<le> effective_attempts (hook_target 3)"
    by (simp add: n)
  moreover have "\<forall>j. int j < effective_attempts (hook_target 3) \<longrightarrow>
      attempt_error (always_fails j (request_of (hook_target 3) test_payload)) \<noteq> None"
    by (simp add: always_fails_def)
  ultimately show ?thesis
    using pushToTarget_exhausted [of "hook_target 3" always_fails test_payload log_fulfils]
    by (simp add: effective_attempts_def request_of_def always_fails_def String_of_error_def
        show_int_def show_nat.simps digit_char_def hook_target_def numeral_3_eq_3
        log_fulfils_def)
qed

text \<open>
  C3, as stated, fails at its last clause: with three attempts that all fail and a logger
  that rejects, the claim's conditions hold and the delivery does not return normally.
\<close>

theorem pushToTarget_exhausted_logger_rejects:
  "1 \<le> effective_attempts (hook_target 3)
   \<and> (\<forall>j. attempt_error (always_fails j (request_of (hook_target 3) test_payload)) \<noteq> None)
   \<and> snd (pushToTarget always_fails log_rejects (hook_target 3) test_payload)
       = Rejected log_unavailable"
proof -
  let ?hs = "case headers (hook_target 3) of None \<Rightarrow> [] | Some hs \<Rightarrow> hs"
  let ?req = "make_request (url (hook_target 3)) ?hs test_payload"
  let ?run = "push_loop always_fails log_rejects (url (hook_target 3)) ?hs test_payload 3 0 0"
  have n: "effective_attempts (hook_target 3) = 3" and d: "effective_delay (hook_target 3) = 0"
    by (simp_all add: effective_attempts_def effective_delay_def hook_target_def)
  have fail: "\<And>j. 0 \<le> j \<Longrightarrow> int j < 3 \<Longrightarrow> attempt_error (always_fails j ?req) \<noteq> None"
    by (simp add: always_fails_def)
  have pos: "int 0 < 3" by simp
  have "requests_of (fst ?run) = replicate (nat 3 - 0) ?req
       \<and> delays_of (fst ?run) = map (\<lambda>i. js_times 0 (js_pow2 i)) [0..<nat 3 - 1]
       \<and> logs_of (fst ?run)
           = [failure_log (url (hook_target 3)) 3 (the (attempt_error (always_fails (nat 3 - 1) ?req)))]"
    using fail pos by (rule push_loop_all_fail)
  then have "snd ?run = Rejected log_unavailable"
    by (simp add: push_loop_outcome [of always_fails log_rejects] log_rejects_def)
  then have "snd (pushToTarget always_fails log_rejects (hook_target 3) test_payload)
      = Rejected log_unavailable"
    by (simp add: pushToTarget_push_loop n d)
  moreover have "\<forall>j. attempt_error (always_fails j (request_of (hook_target 3) test_payload)) \<noteq> None"
    by (simp add: always_fails_def)
  ultimately show ?thesis by (simp add: n)
qed

text \<open>
  C2, as amended. The delivery always settles. It fulfils whenever the logger is not
  called and whenever the logger's call fulfils, however many attempts failed; when the
  logger's call rejects, the \<open>await\<close> inside the \<open>catch\<close> block throws and the
  delivery rejects with the logger's error.
\<close>

theorem pushToTarget_settles:
  "snd (pushToTarget fetch log target payload) =
     (case logs_of (fst (pushToTarget fetch log target payload)) of
        [] \<Rightarrow> Resolved
      | call # calls \<Rightarrow> (case log call of None \<Rightarrow> Resolved | Some e \<Rightarrow> Rejected e))"
  unfolding pushToTarget_push_loop by (rule push_loop_outcome)

text \<open>
  C2, as stated, fails: with one attempt answered by status 500 and a logger that rejects,
  the delivery rejects.
\<close>

theorem pushToTarget_rejects_with_logger:
  "snd (pushToTarget always_500 log_rejects (hook_target 1) test_payload) = Rejected log_unavailable"
proof -
  let ?req = "make_request ''https://hook.example.com/push'' [] test_payload"
  have "int 0 = 1 - 1" by simp
  moreover have "attempt_error (always_500 0 ?req)
      = Some \<lparr>err_name = ''Error'', err_message = ''HTTP '' @ show_int 500 @ '' Internal Server Error'', err_code = None\<rparr>"
    by (simp add: always_500_def)
  ultimately have "push_loop always_500 log_rejects ''https://hook.example.com/push'' [] test_payload 1 0 0
      = ([Fetch ?req, Log (failure_log ''https://hook.example.com/push'' 1 \<lparr>err_name = ''Error'', err_message = ''HTTP '' @ show_int 500 @ '' Internal Server Error'', err_code = None\<rparr>)],
      case log_rejects (failure_log ''https://hook.example.com/push'' 1 \<lparr>err_name = ''Error'', err_message = ''HTTP '' @ show_int 500 @ '' Internal Server Error'', err_code = None\<rparr>) of None \<Rightarrow> Resolved | Some e \<Rightarrow> Rejected e)"
    by (rule push_loop_last)
  then show ?thesis
    by (simp add: pushToTarget_def hook_target_def log_rejects_def)
qed

section \<open>Properties of loading and of the plugin\<close>

lemma readConfigFile_targets_array:
  assumes "readConfigFile nd filePath = (Some config, warned)"
  shows "\<exists>ts. js_get config ''targets'' = Some (JArray ts)"
proof -
  have arr: "\<And>v. isArray v \<Longrightarrow> \<exists>ts. v = Some (JArray ts)"
  proof -
    fix v assume "isArray v"
    then show "\<exists>ts. v = Some (JArray ts)" by (cases v rule: isArray.cases) simp_all
  qed
  from assms show ?thesis
    by (auto simp: readConfigFile_def catch_block_def Let_def empty_config_def
        split: sum.splits if_splits dest: arr)
qed

text \<open>
  What a file contributes to the merge: nothing when \<open>readConfigFile\<close> reports it absent,
  and otherwise the array that is the \<open>targets\<close> of the configuration returned.
\<close>

lemma spread_targets_readConfigFile:
  "case fst (readConfigFile nd filePath) of
     None \<Rightarrow> spread_targets (fst (readConfigFile nd filePath)) = []
   | Some config \<Rightarrow>
       js_get config ''targets'' = Some (JArray (spread_targets (fst (readConfigFile nd filePath))))"
proof (cases "readConfigFile nd filePath")
  case (Pair result warned)
  show ?thesis
  proof (cases result)
    case None
    with Pair show ?thesis by simp
  next
    case (Some config)
    with Pair obtain ts where "js_get config ''targets'' = Some (JArray ts)"
      using readConfigFile_targets_array by blast
    with Pair Some show ?thesis by simp
  qed
qed

lemma readConfigFile_unreadable:
  "isl (readFileSync nd filePath) \<Longrightarrow> fst (readConfigFile nd filePath) = None"
  by (cases "readFileSync nd filePath") (simp_all add: readConfigFile_def catch_block_def)

text \<open>
  C4. There are a list of global targets and a list of project targets such that the
  target list that \<open>loadConfig\<close> returns is the first followed by the second. The
  global targets are the \<open>targets\<close> array of the configuration that
  \<open>readConfigFile\<close> returns for the global path, and none when it reports the file
  absent. The project targets are likewise those of the project path, and none when no
  directory is supplied; the code tests the directory for truthiness, so the empty string
  counts as no directory. When neither file can be read, the list is empty and nothing is
  raised. \<open>path.join\<close> is taken to give a path that is not empty, as Node's does.
\<close>

theorem loadConfig_concatenates:
  assumes "\<And>segments. path_join nd segments \<noteq> []"
  shows "\<exists>global_targets project_targets.
      (case fst (readConfigFile nd
              (path_join nd [homedir nd, ''.config'', ''opencode'', ''opencode-event-push.json''])) of
         None \<Rightarrow> global_targets = []
       | Some config \<Rightarrow> js_get config ''targets'' = Some (JArray global_targets))
    \<and> (case directory of
         None \<Rightarrow> project_targets = []
       | Some d \<Rightarrow>
           if d = [] then project_targets = []
           else (case fst (readConfigFile nd (path_join nd [d, ''opencode-event-push.json''])) of
                   None \<Rightarrow> project_targets = []
                 | Some config \<Rightarrow> js_get config ''targets'' = Some (JArray project_targets)))
    \<and> targets (fst (loadConfig nd directory)) = global_targets @ project_targets
    \<and> (isl (readFileSync nd
              (path_join nd [homedir nd, ''.config'', ''opencode'', ''opencode-event-push.json'']))
        \<and> (case directory of
              None \<Rightarrow> True
            | Some d \<Rightarrow>
                d = [] \<or> isl (readFileSync nd (path_join nd [d, ''opencode-event-push.json''])))
        \<longrightarrow> targets (fst (loadConfig nd directory)) = [])"
proof -
  let ?gp = "path_join nd [homedir nd, ''.config'', ''opencode'', ''opencode-event-push.json'']"
  let ?pp = "\<lambda>d. path_join nd [d, ''opencode-event-push.json'']"
  let ?g = "spread_targets (fst (readConfigFile nd ?gp))"
  let ?p = "case directory of
              None \<Rightarrow> []
            | Some d \<Rightarrow> if d = [] then [] else spread_targets (fst (readConfigFile nd (?pp d)))"
  have merged: "targets (fst (loadConfig nd directory)) = ?g @ ?p"
    using assms
    by (simp add: loadConfig_def Let_def config_file_name_def split_beta split: option.splits)
  have global: "case fst (readConfigFile nd ?gp) of
         None \<Rightarrow> ?g = []
       | Some config \<Rightarrow> js_get config ''targets'' = Some (JArray ?g)"
    by (rule spread_targets_readConfigFile)
  have project: "case directory of
         None \<Rightarrow> ?p = []
       | Some d \<Rightarrow>
           if d = [] then ?p = []
           else (case fst (readConfigFile nd (?pp d)) of
                   None \<Rightarrow> ?p = []
                 | Some config \<Rightarrow> js_get config ''targets'' = Some (JArray ?p))"
  proof (cases directory)
    case None
    then show ?thesis by simp
  next
    case (Some d)
    show ?thesis
    proof (cases "d = []")
      case True
      with Some show ?thesis by simp
    next
      case False
      with Some show ?thesis
        using spread_targets_readConfigFile [of nd "?pp d"]
        by (auto split: option.splits)
    qed
  qed
  have neither: "isl (readFileSync nd ?gp)
        \<and> (case directory of
              None \<Rightarrow> True
            | Some d \<Rightarrow> d = [] \<or> isl (readFileSync nd (?pp d)))
        \<longrightarrow> targets (fst (loadConfig nd directory)) = []"
    unfolding merged
    by (auto simp: readConfigFile_unreadable split: option.splits)
  from global project merged neither show ?thesis by blast
qed

lemma mock_path_join_nonempty: "mock_path_join segments \<noteq> []"
  by (simp add: mock_path_join_def)

lemma replace_env_plain_url:
  "replace_env env ''https://global.example.com'' = ''https://global.example.com''"
  "replace_env env ''https://global.example.com/second'' = ''https://global.example.com/second''"
  "replace_env env ''https://project.example.com'' = ''https://project.example.com''"
  by (rule replace_env_no_token, rule no_brace_no_token, simp,
      rule replace_env_no_token, rule no_brace_no_token, simp,
      rule replace_env_no_token, rule no_brace_no_token, simp)

lemma both_files_global:
  "readConfigFile both_files ''/home/testuser/.config/opencode/opencode-event-push.json''
     = (Some (config_of [global_target, second_global_target]), [])"
  by (simp add: readConfigFile_def both_files_def mock_node_def global_text_def project_text_def
      config_of_def global_target_def second_global_target_def replace_env_plain_url
      del: replace_env.simps)

lemma both_files_project:
  "readConfigFile both_files ''/proj/opencode-event-push.json''
     = (Some (config_of [project_target]), [])"
  by (simp add: readConfigFile_def both_files_def mock_node_def global_text_def project_text_def
      config_of_def project_target_def replace_env_plain_url del: replace_env.simps)

theorem loadConfig_concatenates_witness:
  "targets (fst (loadConfig both_files (Some ''/proj'')))
     = [global_target, second_global_target, project_target]
   \<and> targets (fst (loadConfig both_files None)) = [global_target, second_global_target]
   \<and> targets (fst (loadConfig (mock_node [] [] []) (Some ''/proj''))) = []"
proof -
  have j: "\<And>segments. path_join both_files segments \<noteq> []"
    "\<And>segments. path_join (mock_node [] [] []) segments \<noteq> []"
    by (simp_all add: both_files_def mock_node_def mock_path_join_nonempty)
  have g: "path_join both_files [homedir both_files, ''.config'', ''opencode'', ''opencode-event-push.json'']
      = ''/home/testuser/.config/opencode/opencode-event-push.json''"
    and p: "path_join both_files [''/proj'', ''opencode-event-push.json''] = ''/proj/opencode-event-push.json''"
    by (simp_all add: both_files_def mock_node_def mock_path_join_def)
  have a: "targets (fst (loadConfig both_files (Some ''/proj'')))
      = [global_target, second_global_target, project_target]"
    using loadConfig_concatenates [of both_files "Some ''/proj''", OF j(1)]
    by (auto simp: g p both_files_global both_files_project config_of_def)
  have b: "targets (fst (loadConfig both_files None)) = [global_target, second_global_target]"
    using loadConfig_concatenates [of both_files None, OF j(1)]
    by (auto simp: g both_files_global config_of_def)
  have "isl (readFileSync (mock_node [] [] []) path)" for path
    by (simp add: mock_node_def)
  then have c: "targets (fst (loadConfig (mock_node [] [] []) (Some ''/proj''))) = []"
    using loadConfig_concatenates [of "mock_node [] [] []" "Some ''/proj''", OF j(2)]
    by auto
  from a b c show ?thesis by simp
qed

text \<open>
  C10. When the merged target list is empty, the plugin returns the hooks object \<open>{}\<close>:
  it has no \<open>event\<close> handler, so a call of the host's finds no handler for any event.
\<close>

theorem EventPushPlugin_no_targets:
  assumes "targets (fst (loadConfig nd directory)) = []"
  shows "fst (EventPushPlugin nd directory) = \<lparr>event = None\<rparr>
    \<and> call_event net client_app_log (fst (EventPushPlugin nd directory)) ev = NoHandler"
  using assms by (simp add: EventPushPlugin_def call_event_def split_beta)

theorem EventPushPlugin_no_targets_witness:
  "fst (EventPushPlugin (mock_node [] [] []) (Some ''/proj'')) = \<lparr>event = None\<rparr>
   \<and> call_event (\<lambda>i. always_500) (\<lambda>i call. None)
        (fst (EventPushPlugin (mock_node [] [] []) (Some ''/proj''))) event_y = NoHandler"
proof -
  have "targets (fst (loadConfig (mock_node [] [] []) (Some ''/proj''))) = []"
    by (simp add: loadConfig_def readConfigFile_def mock_node_def catch_block_def ENOENT_def
        Let_def mock_path_join_def config_file_name_def)
  then show ?thesis by (rule EventPushPlugin_no_targets)
qed

lemma matches_iff:
  "matches ev t \<longleftrightarrow>
     events t = None \<or> events t = Some [] \<or> (\<exists>es. events t = Some es \<and> event_type ev \<in> set es)"
  by (auto simp: matches_def split: option.splits)

text \<open>
  C9. For every loaded target list and event, the handler starts a delivery for exactly
  the targets whose \<open>events\<close> list is absent, empty, or contains the event's type (in
  the order of the list); so with no such target there is no delivery and no request.
  Each delivery is \<open>pushToTarget\<close> for its target with the event as payload;
  the handler's promise is that of \<open>Promise.allSettled\<close> over all of them, and
  it fulfils whatever the network and the logger answer, also when every delivery fails.
\<close>

theorem event_handler_dispatch:
  "map fst (fst (event_handler net client_app_log ts ev))
     = filter (\<lambda>t. events t = None \<or> events t = Some []
                  \<or> (\<exists>es. events t = Some es \<and> event_type ev \<in> set es)) ts
   \<and> (\<forall>k < length (fst (event_handler net client_app_log ts ev)).
        snd (fst (event_handler net client_app_log ts ev) ! k)
          = pushToTarget (net k) (plugin_log (client_app_log k))
              (fst (fst (event_handler net client_app_log ts ev) ! k)) (event_json ev))
   \<and> (filter (\<lambda>t. events t = None \<or> events t = Some []
                  \<or> (\<exists>es. events t = Some es \<and> event_type ev \<in> set es)) ts = []
        \<longrightarrow> fst (event_handler net client_app_log ts ev) = [])
   \<and> snd (event_handler net client_app_log ts ev) = Resolved"
proof -
  let ?m = "filter (matches ev) ts"
  let ?d = "map (\<lambda>(i, target). (target, pushToTarget (net i) (plugin_log (client_app_log i)) target
                                 (event_json ev))) (enumerate 0 ?m)"
  have h: "event_handler net client_app_log ts ev = (?d, Resolved)"
    by (cases "?m = []") (simp_all add: event_handler_def Let_def Promise_allSettled_def)
  have m: "map fst ?d = ?m"
  proof -
    have "map fst ?d = map snd (enumerate 0 ?m)"
      by (simp add: split_beta o_def)
    then show ?thesis by simp
  qed
  have "filter (matches ev) ts = filter (\<lambda>t. events t = None \<or> events t = Some []
                  \<or> (\<exists>es. events t = Some es \<and> event_type ev \<in> set es)) ts"
    by (rule filter_cong) (simp_all add: matches_iff)
  with m have one: "map fst (fst (event_handler net client_app_log ts ev))
     = filter (\<lambda>t. events t = None \<or> events t = Some []
                  \<or> (\<exists>es. events t = Some es \<and> event_type ev \<in> set es)) ts"
    by (simp add: h)
  have two: "\<forall>k < length ?d. snd (?d ! k)
      = pushToTarget (net k) (plugin_log (client_app_log k)) (fst (?d ! k)) (event_json ev)"
    by (simp add: nth_enumerate_eq)
  from one have three: "filter (\<lambda>t. events t = None \<or> events t = Some []
                  \<or> (\<exists>es. events t = Some es \<and> event_type ev \<in> set es)) ts = []
        \<longrightarrow> fst (event_handler net client_app_log ts ev) = []"
    by auto
  from one two three show ?thesis by (simp add: h)
qed

theorem event_handler_dispatch_witness:
  "map fst (fst (event_handler (\<lambda>i. always_500) (\<lambda>i body. Some log_unavailable)
                    [target_A, target_B] event_y)) = [target_A]
   \<and> snd (event_handler (\<lambda>i. always_500) (\<lambda>i body. Some log_unavailable)
            [target_A, target_B] event_y) = Resolved
   \<and> fst (event_handler (\<lambda>i. always_500) (\<lambda>i body. Some log_unavailable)
            [target_B] event_y) = []"
proof -
  have "map fst (fst (event_handler (\<lambda>i. always_500) (\<lambda>i body. Some log_unavailable)
                    [target_B] event_y)) = []"
    using event_handler_dispatch [of "\<lambda>i. always_500" "\<lambda>i body. Some log_unavailable"
        "[target_B]" event_y]
    by (simp add: target_B_def event_y_def)
  then have "fst (event_handler (\<lambda>i. always_500) (\<lambda>i body. Some log_unavailable)
                    [target_B] event_y) = []"
    by simp
  then show ?thesis
    using event_handler_dispatch [of "\<lambda>i. always_500" "\<lambda>i body. Some log_unavailable"
        "[target_A, target_B]" event_y]
    by (simp add: target_A_def target_B_def event_y_def)
qed

end
